theory Spec2Isabelle
  imports Complex_Main "HOL-Library.AList" "HOL-Library.Multiset"
begin

section \<open>Data model of the auction parser\<close>

text \<open>
  The aggregator is \<^verbatim>\<open>GoblineerUpdater.parse_auctions\<close> (src/src/update.py). One
  auction is a JSON object; every key the loop reads may be absent, and reading an absent
  key raises \<^verbatim>\<open>KeyError\<close>, so every field is an option. Prices, quantities and
  identifiers are Python integers (unbounded), hence \<open>int\<close>.
\<close>

datatype error = TypeError | KeyError string | IndexError | EstimatorError string

text \<open>The object under the key \<^verbatim>\<open>'item'\<close>: keys \<^verbatim>\<open>'id'\<close> and \<^verbatim>\<open>'bonus_lists'\<close>.\<close>

record item_obj =
  item_id :: "int option"
  bonus_lists :: "int list option"

text \<open>One auction: keys \<^verbatim>\<open>'buyout'\<close>, \<^verbatim>\<open>'unit_price'\<close>, \<^verbatim>\<open>'item'\<close>, \<^verbatim>\<open>'quantity'\<close>.\<close>

record auction =
  buyout :: "int option"
  unit_price :: "int option"
  item :: "item_obj option"
  quantity :: "int option"

text \<open>
  The argument of \<^verbatim>\<open>parse_auctions\<close> is any Python value; the function accepts it
  only when \<^verbatim>\<open>isinstance(auctions, list)\<close> holds.
\<close>

datatype auctions_arg =
  PyList "auction list"
| PyTuple "auction list"
| PyNone
| PyInt int
| PyStr string

text \<open>
  A Python \<^verbatim>\<open>dict\<close> is an association list in insertion order: assigning to a key that
  is present replaces its value in place, assigning to a new key appends the entry, which is
  what \<^const>\<open>AList.update\<close> does; \<^const>\<open>map_of\<close> is the lookup. The price key
  \<^verbatim>\<open>buy_price / 10000\<close> is the quotient of true division, taken here as the exact
  rational (neither the rounding of the float quotient nor the \<^verbatim>\<open>OverflowError\<close> of a
  quotient beyond the float range is modelled). The variant key is the
  tuple of the item id followed by the bonus ids.
\<close>

type_synonym histogram = "(rat \<times> int) list"
type_synonym dict_key = "int list"
type_synonym parsed = "(dict_key \<times> histogram) list"

section \<open>The loop body of \<^verbatim>\<open>parse_auctions\<close>\<close>

text \<open>
  Lines 172-178: the \<^verbatim>\<open>if\<close>/\<^verbatim>\<open>elif\<close>/\<^verbatim>\<open>else\<close> that chooses
  \<^verbatim>\<open>buy_price\<close>; \<open>None\<close> is the \<^verbatim>\<open>continue\<close> branch.
\<close>

definition buy_price :: "auction \<Rightarrow> int option" where
  "buy_price auc =
     (if buyout auc \<noteq> None \<and> buyout auc \<noteq> Some 0 then buyout auc
      else if unit_price auc \<noteq> None \<and> unit_price auc \<noteq> Some 0 then unit_price auc
      else None)"

text \<open>Line 181: \<^verbatim>\<open>unit_price = buy_price / 10000\<close>.\<close>

definition scale_price :: "int \<Rightarrow> rat" where
  "scale_price p = of_int p / 10000"

text \<open>
  Lines 184-191: the key \<^verbatim>\<open>(auc['item']['id'],) + tuple(auc['item']['bonus_lists'])\<close>,
  the bonus ids only when the key \<^verbatim>\<open>'bonus_lists'\<close> is present.
\<close>

definition make_dict_key :: "auction \<Rightarrow> error + dict_key" where
  "make_dict_key auc =
     (case item auc of
        None \<Rightarrow> Inl (KeyError ''item'')
      | Some it \<Rightarrow>
          (case item_id it of
             None \<Rightarrow> Inl (KeyError ''id'')
           | Some i \<Rightarrow>
               Inr (i # (case bonus_lists it of None \<Rightarrow> [] | Some bs \<Rightarrow> bs))))"

text \<open>
  \<^verbatim>\<open>parsed_auctions[dict_key]\<close> on a \<^verbatim>\<open>defaultdict(dict)\<close>: a missing key is
  inserted with an empty dict before the value is returned.
\<close>

definition defaultdict_get :: "parsed \<Rightarrow> dict_key \<Rightarrow> parsed \<times> histogram" where
  "defaultdict_get pa k =
     (case map_of pa k of
        Some h \<Rightarrow> (pa, h)
      | None \<Rightarrow> (AList.update k [] pa, []))"

text \<open>
  Lines 195-198 on the inner dict: add the quantity to the bucket of the price when the
  price is already a key, store the quantity under a new key otherwise.
\<close>

definition add_quantity :: "histogram \<Rightarrow> rat \<Rightarrow> int \<Rightarrow> histogram" where
  "add_quantity h p q =
     (case map_of h p of
        Some c \<Rightarrow> AList.update p (c + q) h
      | None \<Rightarrow> AList.update p q h)"

text \<open>
  Lines 183-198, the part of the loop body after the price is known, in the order in which
  the source evaluates: the key, the \<^verbatim>\<open>defaultdict\<close> access, and only then
  \<^verbatim>\<open>auc['quantity']\<close>. The inner dict is mutated in place, so the entry of the key is
  replaced by the updated histogram.
\<close>

definition store_listing :: "parsed \<Rightarrow> auction \<Rightarrow> rat \<Rightarrow> error + parsed" where
  "store_listing pa auc up =
     (case make_dict_key auc of
        Inl e \<Rightarrow> Inl e
      | Inr k \<Rightarrow>
          (let (pa', h) = defaultdict_get pa k in
           case quantity auc of
             None \<Rightarrow> Inl (KeyError ''quantity'')
           | Some q \<Rightarrow> Inr (AList.update k (add_quantity h up q) pa')))"

text \<open>
  One iteration of the loop: the price test with its \<^verbatim>\<open>continue\<close>, the division,
  then the rest of the body.
\<close>

definition parse_auction :: "parsed \<Rightarrow> auction \<Rightarrow> error + parsed" where
  "parse_auction pa auc =
     (case buy_price auc of
        None \<Rightarrow> Inr pa
      | Some bp \<Rightarrow> store_listing pa auc (scale_price bp))"

text \<open>The \<^verbatim>\<open>for\<close> loop: an exception in one iteration ends the call.\<close>

fun parse_loop :: "parsed \<Rightarrow> auction list \<Rightarrow> error + parsed" where
  "parse_loop pa [] = Inr pa"
| "parse_loop pa (auc # aucs) =
     (case parse_auction pa auc of
        Inl e \<Rightarrow> Inl e
      | Inr pa' \<Rightarrow> parse_loop pa' aucs)"

text \<open>The whole function: the type check, then the loop from the empty \<^verbatim>\<open>defaultdict\<close>.\<close>

fun parse_auctions :: "auctions_arg \<Rightarrow> error + parsed" where
  "parse_auctions (PyList aucs) = parse_loop [] aucs"
| "parse_auctions _ = Inl TypeError"

section \<open>The market-value loop of \<^verbatim>\<open>main\<close>\<close>

text \<open>
  Lines 39-48 of src/src/main.py. The estimator \<^verbatim>\<open>marketvalue\<close> lives in a module
  that is not part of the sources at hand, so it is a parameter \<open>mv\<close>: it returns a dict
  from field names to values of some type \<open>'v\<close>, or raises. \<^verbatim>\<open>str\<close> on those values
  is the parameter \<open>str\<close>.
\<close>

record mv_entry =
  out_item :: int
  out_bonusIds :: "int list"
  out_marketvalue :: string
  out_quantity :: string
  out_MIN :: string

definition dict_lookup :: "(string \<times> 'v) list \<Rightarrow> string \<Rightarrow> error + 'v" where
  "dict_lookup d k = (case map_of d k of None \<Rightarrow> Inl (KeyError k) | Some v \<Rightarrow> Inr v)"

definition make_entry ::
  "(histogram \<Rightarrow> error + (string \<times> 'v) list) \<Rightarrow> ('v \<Rightarrow> string) \<Rightarrow>
   dict_key \<times> histogram \<Rightarrow> error + mv_entry" where
  "make_entry mv str kv =
     (case mv (snd kv) of
        Inl e \<Rightarrow> Inl e
      | Inr d \<Rightarrow>
          (case fst kv of
             [] \<Rightarrow> Inl IndexError
           | i # bs \<Rightarrow>
               (case dict_lookup d ''marketvalue'' of
                  Inl e \<Rightarrow> Inl e
                | Inr m \<Rightarrow>
                    (case dict_lookup d ''quantity'' of
                       Inl e \<Rightarrow> Inl e
                     | Inr q \<Rightarrow>
                         (case dict_lookup d ''MIN'' of
                            Inl e \<Rightarrow> Inl e
                          | Inr n \<Rightarrow>
                              Inr \<lparr>out_item = i, out_bonusIds = bs,
                                   out_marketvalue = str m, out_quantity = str q,
                                   out_MIN = str n\<rparr>)))))"

fun marketvalues_loop ::
  "(histogram \<Rightarrow> error + (string \<times> 'v) list) \<Rightarrow> ('v \<Rightarrow> string) \<Rightarrow>
   mv_entry list \<Rightarrow> parsed \<Rightarrow> error + mv_entry list" where
  "marketvalues_loop mv str out [] = Inr out"
| "marketvalues_loop mv str out (kv # kvs) =
     (case make_entry mv str kv of
        Inl e \<Rightarrow> Inl e
      | Inr ent \<Rightarrow> marketvalues_loop mv str (out @ [ent]) kvs)"

text \<open>Parsing followed by the market-value loop, as \<^verbatim>\<open>main\<close> chains them.\<close>

definition main_marketvalues ::
  "(histogram \<Rightarrow> error + (string \<times> 'v) list) \<Rightarrow> ('v \<Rightarrow> string) \<Rightarrow>
   auctions_arg \<Rightarrow> error + mv_entry list" where
  "main_marketvalues mv str auction_data =
     (case parse_auctions auction_data of
        Inl e \<Rightarrow> Inl e
      | Inr parsed_auctions \<Rightarrow> marketvalues_loop mv str [] parsed_auctions)"

section \<open>Notions used to state the properties\<close>

text \<open>The histogram stored under a key, the empty one when the key is absent.\<close>

definition hist_of :: "parsed \<Rightarrow> dict_key \<Rightarrow> histogram" where
  "hist_of pa k = (case map_of pa k of None \<Rightarrow> [] | Some h \<Rightarrow> h)"

text \<open>The quantity stored in the bucket of a variant and a price, if there is one.\<close>

definition bucket :: "parsed \<Rightarrow> dict_key \<Rightarrow> rat \<Rightarrow> int option" where
  "bucket pa k p = (case map_of pa k of None \<Rightarrow> None | Some h \<Rightarrow> map_of h p)"

text \<open>The quantity of a listing (0 stands for an absent key; a run that returns never meets one).\<close>

definition qty :: "auction \<Rightarrow> int" where
  "qty auc = (case quantity auc of None \<Rightarrow> 0 | Some q \<Rightarrow> q)"

text \<open>The bonus ids of an item object, the empty list when the key is absent.\<close>

definition bonus_ids :: "item_obj \<Rightarrow> int list" where
  "bonus_ids it = (case bonus_lists it of None \<Rightarrow> [] | Some bs \<Rightarrow> bs)"

text \<open>
  The next three definitions follow the words of the specification, not the code, so that
  the properties below compare the aggregator with them. A price field is usable when it is
  present and not zero.
\<close>

definition nonzero_price :: "int option \<Rightarrow> int option" where
  "nonzero_price x = (case x of None \<Rightarrow> None | Some v \<Rightarrow> if v = 0 then None else Some v)"

text \<open>
  The unit price of a listing as the specification gives it: the buyout divided by the
  currency scale 10000 when the buyout is usable, else the unit price divided by the scale
  when that is usable, else none (the listing is to be skipped).
\<close>

definition spec_unit_price :: "auction \<Rightarrow> rat option" where
  "spec_unit_price auc =
     (case nonzero_price (buyout auc) of
        Some b \<Rightarrow> Some (of_int b / 10000)
      | None \<Rightarrow>
          (case nonzero_price (unit_price auc) of
             Some u \<Rightarrow> Some (of_int u / 10000)
           | None \<Rightarrow> None))"

text \<open>
  The variant of a listing as the specification gives it: the item id followed by the bonus
  ids in the order given, none for a listing without item id.
\<close>

definition spec_variant_key :: "auction \<Rightarrow> dict_key option" where
  "spec_variant_key auc =
     (case item auc of
        None \<Rightarrow> None
      | Some it \<Rightarrow>
          (case item_id it of
             None \<Rightarrow> None
           | Some i \<Rightarrow> Some (i # bonus_ids it)))"

text \<open>A listing of the variant \<open>k\<close> that has a usable price.\<close>

definition counted :: "dict_key \<Rightarrow> auction \<Rightarrow> bool" where
  "counted k auc = (spec_unit_price auc \<noteq> None \<and> spec_variant_key auc = Some k)"

text \<open>A listing of the variant \<open>k\<close> whose unit price is \<open>p\<close>.\<close>

definition counted_at :: "dict_key \<Rightarrow> rat \<Rightarrow> auction \<Rightarrow> bool" where
  "counted_at k p auc = (spec_variant_key auc = Some k \<and> spec_unit_price auc = Some p)"

section \<open>One iteration\<close>

lemma buy_price_None_iff:
  "buy_price a = None \<longleftrightarrow>
   (buyout a = None \<or> buyout a = Some 0) \<and> (unit_price a = None \<or> unit_price a = Some 0)"
  by (auto simp: buy_price_def)

lemma spec_unit_price_code: "spec_unit_price a = map_option scale_price (buy_price a)"
  by (auto simp: spec_unit_price_def nonzero_price_def buy_price_def scale_price_def
      split: option.splits)

lemma spec_variant_key_code: "spec_variant_key a = Some k \<longleftrightarrow> make_dict_key a = Inr k"
  by (auto simp: spec_variant_key_def make_dict_key_def bonus_ids_def split: option.splits)

lemma counted_code: "counted k a \<longleftrightarrow> buy_price a \<noteq> None \<and> make_dict_key a = Inr k"
  by (simp add: counted_def spec_unit_price_code spec_variant_key_code)

lemma counted_at_code:
  "counted_at k p a \<longleftrightarrow>
   buy_price a \<noteq> None \<and> make_dict_key a = Inr k
   \<and> map_option scale_price (buy_price a) = Some p"
  by (auto simp: counted_at_def spec_unit_price_code spec_variant_key_code)

lemma store_listing_add:
  "make_dict_key a = Inr k \<Longrightarrow> quantity a = Some q \<Longrightarrow>
   store_listing pa a up = Inr (AList.update k (add_quantity (hist_of pa k) up q) pa)"
  by (simp add: store_listing_def defaultdict_get_def hist_of_def split: option.splits)

lemma parse_auction_skip: "buy_price a = None \<Longrightarrow> parse_auction pa a = Inr pa"
  by (simp add: parse_auction_def)

lemma parse_auction_add:
  "buy_price a = Some bp \<Longrightarrow> make_dict_key a = Inr k \<Longrightarrow> quantity a = Some q \<Longrightarrow>
   parse_auction pa a = Inr (AList.update k (add_quantity (hist_of pa k) (scale_price bp) q) pa)"
  by (simp add: parse_auction_def store_listing_add)

lemma parse_auction_Inr:
  assumes "parse_auction pa a = Inr pa'"
  shows "(buy_price a = None \<and> pa' = pa) \<or>
         (\<exists>bp k q. buy_price a = Some bp \<and> make_dict_key a = Inr k \<and> quantity a = Some q \<and>
            pa' = AList.update k (add_quantity (hist_of pa k) (scale_price bp) q) pa)"
proof (cases "buy_price a")
  case None
  with assms show ?thesis by (simp add: parse_auction_def)
next
  case (Some bp)
  from assms Some obtain k where k: "make_dict_key a = Inr k"
    by (cases "make_dict_key a") (simp_all add: parse_auction_def store_listing_def)
  from assms Some k obtain q where q: "quantity a = Some q"
    by (cases "quantity a")
      (simp_all add: parse_auction_def store_listing_def split: prod.splits)
  from parse_auction_add[OF Some k q, of pa] assms Some k q show ?thesis by simp
qed

lemma parse_auction_ok_iff:
  "(\<exists>pa'. parse_auction pa a = Inr pa') \<longleftrightarrow>
   (buy_price a = None \<or> ((\<exists>k. make_dict_key a = Inr k) \<and> quantity a \<noteq> None))"
  using parse_auction_Inr[of pa a] parse_auction_add[of a _ _ _ pa] parse_auction_skip[of a pa]
  by (metis not_Some_eq)

lemma parse_auction_error:
  "parse_auction pa a = Inl e \<Longrightarrow>
   e = KeyError ''item'' \<or> e = KeyError ''id'' \<or> e = KeyError ''quantity''"
  by (auto simp: parse_auction_def store_listing_def make_dict_key_def
      split: option.splits sum.splits prod.splits)

section \<open>The inner dict\<close>

lemma map_of_add_quantity:
  "map_of (add_quantity h p q) =
   (map_of h)(p \<mapsto> (case map_of h p of None \<Rightarrow> q | Some c \<Rightarrow> c + q))"
  by (simp add: add_quantity_def update_conv' split: option.splits)

lemma sum_snd_update_new:
  "map_of h p = None \<Longrightarrow>
   sum_list (map snd (AList.update p q h)) = sum_list (map snd h) + (q::int)"
  by (induction h) (auto split: if_splits)

lemma sum_snd_update_old:
  "map_of h p = Some c \<Longrightarrow>
   sum_list (map snd (AList.update p (c + q) h)) = sum_list (map snd h) + (q::int)"
  by (induction h) (auto split: if_splits)

lemma sum_snd_add_quantity:
  "sum_list (map snd (add_quantity h p q)) = sum_list (map snd h) + q"
  by (cases "map_of h p") (simp_all add: add_quantity_def sum_snd_update_new sum_snd_update_old)

lemma distinct_add_quantity:
  "distinct (map fst h) \<Longrightarrow> distinct (map fst (add_quantity h p q))"
  by (simp add: add_quantity_def distinct_update split: option.splits)

lemma add_quantity_nonempty: "add_quantity h p q \<noteq> []"
  by (simp add: add_quantity_def split: option.splits)

lemma set_update_subset: "set (AList.update k v al) \<subseteq> insert (k, v) (set al)"
  by (induction al) auto

lemma add_quantity_positive:
  assumes "\<forall>(p', c) \<in> set h. 1 \<le> c" and "1 \<le> q"
  shows "\<forall>(p', c) \<in> set (add_quantity h p q). 1 \<le> c"
proof (cases "map_of h p")
  case None
  with assms set_update_subset[of p q h] show ?thesis
    by (auto simp: add_quantity_def)
next
  case (Some c0)
  then have "(p, c0) \<in> set h" by (rule map_of_SomeD)
  with assms have "1 \<le> c0 + q" by auto
  with assms Some set_update_subset[of p "c0 + q" h] show ?thesis
    by (auto simp: add_quantity_def)
qed

section \<open>The outer dict after one iteration\<close>

lemma bucket_hist_of: "bucket pa k p = map_of (hist_of pa k) p"
  by (simp add: bucket_def hist_of_def split: option.splits)

lemma hist_of_update:
  "hist_of (AList.update k h pa) k' = (if k' = k then h else hist_of pa k')"
  by (simp add: hist_of_def update_conv')

lemma bucket_step:
  "bucket (AList.update k (add_quantity (hist_of pa k) p q) pa) k' p' =
   (if k' = k \<and> p' = p then Some ((case bucket pa k p of None \<Rightarrow> 0 | Some c \<Rightarrow> c) + q)
    else bucket pa k' p')"
  by (simp add: bucket_hist_of hist_of_update map_of_add_quantity split: option.splits)

section \<open>Invariants of the loop\<close>

lemma parse_loop_append:
  "parse_loop pa (xs @ ys) =
   (case parse_loop pa xs of Inl e \<Rightarrow> Inl e | Inr pa' \<Rightarrow> parse_loop pa' ys)"
  by (induction xs arbitrary: pa) (auto split: sum.splits)

lemma parse_loop_error:
  "parse_loop pa xs = Inl e \<Longrightarrow>
   e = KeyError ''item'' \<or> e = KeyError ''id'' \<or> e = KeyError ''quantity''"
proof (induction xs arbitrary: pa)
  case Nil
  then show ?case by simp
next
  case (Cons a xs)
  show ?case
  proof (cases "parse_auction pa a")
    case (Inl e')
    with Cons.prems parse_auction_error[of pa a e'] show ?thesis by simp
  next
    case (Inr pa')
    with Cons.prems Cons.IH[of pa'] show ?thesis by simp
  qed
qed

lemma parse_loop_ok_iff:
  "(\<exists>m. parse_loop pa xs = Inr m) \<longleftrightarrow>
   (\<forall>a\<in>set xs. buy_price a = None \<or> ((\<exists>k. make_dict_key a = Inr k) \<and> quantity a \<noteq> None))"
proof (induction xs arbitrary: pa)
  case Nil
  show ?case by simp
next
  case (Cons a xs)
  show ?case
  proof (cases "parse_auction pa a")
    case (Inl e)
    with parse_auction_ok_iff[of pa a] show ?thesis by auto
  next
    case (Inr pa')
    with parse_auction_ok_iff[of pa a] Cons.IH[of pa'] show ?thesis by auto
  qed
qed

lemma parse_loop_keys:
  "parse_loop pa xs = Inr m \<Longrightarrow>
   map_of m k = None \<longleftrightarrow> (map_of pa k = None \<and> (\<forall>a\<in>set xs. \<not> counted k a))"
proof (induction xs arbitrary: pa)
  case Nil
  then show ?case by simp
next
  case (Cons a xs)
  from Cons.prems obtain pa' where step: "parse_auction pa a = Inr pa'"
    and rest: "parse_loop pa' xs = Inr m"
    by (auto split: sum.splits)
  from parse_auction_Inr[OF step] have
    "map_of pa' k = None \<longleftrightarrow> (map_of pa k = None \<and> \<not> counted k a)"
    by (auto simp: counted_code update_conv' split: if_splits)
  with Cons.IH[OF rest] show ?case by auto
qed

lemma parse_loop_bucket:
  "parse_loop pa xs = Inr m \<Longrightarrow>
   bucket m k p =
     (if \<exists>a\<in>set xs. counted_at k p a
      then Some ((case bucket pa k p of None \<Rightarrow> 0 | Some c \<Rightarrow> c)
                 + sum_list (map qty (filter (counted_at k p) xs)))
      else bucket pa k p)"
proof (induction xs arbitrary: pa)
  case Nil
  then show ?case by simp
next
  case (Cons a xs)
  from Cons.prems obtain pa' where step: "parse_auction pa a = Inr pa'"
    and rest: "parse_loop pa' xs = Inr m"
    by (auto split: sum.splits)
  from parse_auction_Inr[OF step] have here:
    "bucket pa' k p =
       (if counted_at k p a then Some ((case bucket pa k p of None \<Rightarrow> 0 | Some c \<Rightarrow> c) + qty a)
        else bucket pa k p)"
    by (auto simp: counted_at_code qty_def bucket_step)
  show ?case
    unfolding Cons.IH[OF rest] here by (simp add: algebra_simps)
qed

lemma parse_loop_total:
  "parse_loop pa xs = Inr m \<Longrightarrow>
   sum_list (map snd (hist_of m k)) =
     sum_list (map snd (hist_of pa k)) + sum_list (map qty (filter (counted k) xs))"
proof (induction xs arbitrary: pa)
  case Nil
  then show ?case by simp
next
  case (Cons a xs)
  from Cons.prems obtain pa' where step: "parse_auction pa a = Inr pa'"
    and rest: "parse_loop pa' xs = Inr m"
    by (auto split: sum.splits)
  from parse_auction_Inr[OF step] have here:
    "sum_list (map snd (hist_of pa' k)) =
       sum_list (map snd (hist_of pa k)) + (if counted k a then qty a else 0)"
    by (auto simp: counted_code qty_def hist_of_update sum_snd_add_quantity)
  show ?case
    unfolding Cons.IH[OF rest] here by simp
qed

lemma parse_loop_distinct_keys:
  "parse_loop pa xs = Inr m \<Longrightarrow> distinct (map fst pa) \<Longrightarrow> distinct (map fst m)"
proof (induction xs arbitrary: pa)
  case Nil
  then show ?case by simp
next
  case (Cons a xs)
  from Cons.prems obtain pa' where step: "parse_auction pa a = Inr pa'"
    and rest: "parse_loop pa' xs = Inr m"
    by (auto split: sum.splits)
  from parse_auction_Inr[OF step] Cons.prems(2) have "distinct (map fst pa')"
    by (auto simp: distinct_update)
  with Cons.IH[OF rest] show ?case .
qed

lemma parse_loop_hist_invariant:
  assumes run: "parse_loop pa xs = Inr m"
    and init: "\<And>k h. map_of pa k = Some h \<Longrightarrow> P h"
    and step: "\<And>h p a q. h = [] \<or> P h \<Longrightarrow> a \<in> set xs \<Longrightarrow> quantity a = Some q \<Longrightarrow>
                 P (add_quantity h p q)"
    and look: "map_of m k = Some h"
  shows "P h"
  using run init step look
proof (induction xs arbitrary: pa)
  case Nil
  then show ?case by simp
next
  case (Cons a xs)
  from Cons.prems(1) obtain pa' where st: "parse_auction pa a = Inr pa'"
    and rest: "parse_loop pa' xs = Inr m"
    by (auto split: sum.splits)
  have init': "P h'" if "map_of pa' k' = Some h'" for k' h'
  proof -
    from parse_auction_Inr[OF st] show ?thesis
    proof
      assume "buy_price a = None \<and> pa' = pa"
      with that Cons.prems(2) show ?thesis by simp
    next
      assume "\<exists>bp ka q. buy_price a = Some bp \<and> make_dict_key a = Inr ka \<and>
            quantity a = Some q \<and>
            pa' = AList.update ka (add_quantity (hist_of pa ka) (scale_price bp) q) pa"
      then obtain bp ka q where q: "quantity a = Some q"
        and pa': "pa' = AList.update ka (add_quantity (hist_of pa ka) (scale_price bp) q) pa"
        by blast
      show ?thesis
      proof (cases "k' = ka")
        case True
        have "hist_of pa ka = [] \<or> P (hist_of pa ka)"
          using Cons.prems(2)[of ka] by (auto simp: hist_of_def split: option.splits)
        then have "P (add_quantity (hist_of pa ka) (scale_price bp) q)"
          using Cons.prems(3)[of "hist_of pa ka" a q "scale_price bp"] q by simp
        with that pa' True show ?thesis by (simp add: update_conv')
      next
        case False
        with that pa' Cons.prems(2)[of k' h'] show ?thesis by (simp add: update_conv')
      qed
    qed
  qed
  show ?case
    by (rule Cons.IH[OF rest init' _ Cons.prems(4)]) (auto intro: Cons.prems(3))
qed

lemma sum_filter_mset:
  "mset xs = mset ys \<Longrightarrow>
   sum_list (map f (filter P xs)) = (sum_list (map f (filter P ys)) :: int)"
proof -
  assume eq: "mset xs = mset ys"
  have "sum_list (map f (filter P zs)) = sum_mset (image_mset f (filter_mset P (mset zs)))"
    for zs :: "'a list"
    by (metis mset_filter mset_map sum_mset_sum_list)
  with eq show ?thesis by simp
qed

section \<open>The price rule\<close>

text \<open>
  Claim C1. A listing with a buyout that is present and not zero is stored at the price
  buyout / 10000; otherwise a listing with a unit price that is present and not zero is
  stored at unit_price / 10000; otherwise the iteration leaves the result as it was. Storing
  a well-formed listing at a price adds its quantity to the bucket of its key and that
  price.
\<close>

theorem unit_price_rule:
  "(\<forall>b. buyout a = Some b \<and> b \<noteq> 0 \<longrightarrow>
        parse_auction pa a = store_listing pa a (of_int b / 10000))
   \<and> (\<forall>u. (buyout a = None \<or> buyout a = Some 0) \<and> unit_price a = Some u \<and> u \<noteq> 0 \<longrightarrow>
        parse_auction pa a = store_listing pa a (of_int u / 10000))
   \<and> ((buyout a = None \<or> buyout a = Some 0) \<and> (unit_price a = None \<or> unit_price a = Some 0) \<longrightarrow>
        parse_auction pa a = Inr pa)
   \<and> (\<forall>k q up. make_dict_key a = Inr k \<and> quantity a = Some q \<longrightarrow>
        (\<exists>pa'. store_listing pa a up = Inr pa'
           \<and> bucket pa' k up = Some ((case bucket pa k up of None \<Rightarrow> 0 | Some c \<Rightarrow> c) + q)))"
proof (intro conjI allI impI)
  fix b assume "buyout a = Some b \<and> b \<noteq> 0"
  then show "parse_auction pa a = store_listing pa a (of_int b / 10000)"
    by (simp add: parse_auction_def buy_price_def scale_price_def)
next
  fix u
  assume "(buyout a = None \<or> buyout a = Some 0) \<and> unit_price a = Some u \<and> u \<noteq> 0"
  then show "parse_auction pa a = store_listing pa a (of_int u / 10000)"
    by (auto simp: parse_auction_def buy_price_def scale_price_def)
next
  assume "(buyout a = None \<or> buyout a = Some 0) \<and> (unit_price a = None \<or> unit_price a = Some 0)"
  then have "buy_price a = None" by (simp add: buy_price_None_iff)
  then show "parse_auction pa a = Inr pa" by (rule parse_auction_skip)
next
  fix k q up assume "make_dict_key a = Inr k \<and> quantity a = Some q"
  then show "\<exists>pa'. store_listing pa a up = Inr pa'
           \<and> bucket pa' k up = Some ((case bucket pa k up of None \<Rightarrow> 0 | Some c \<Rightarrow> c) + q)"
    by (simp add: store_listing_add bucket_step)
qed

text \<open>The three branches on concrete listings, starting from a result that has one bucket.\<close>

theorem unit_price_rule_witness:
  "parse_auction [([7], [(3, 2)])]
     \<lparr>buyout = Some 30000, unit_price = Some 50000,
      item = Some \<lparr>item_id = Some 7, bonus_lists = None\<rparr>, quantity = Some 4\<rparr>
     = Inr [([7], [(3, 6)])]
   \<and> parse_auction [([7], [(3, 2)])]
     \<lparr>buyout = Some 0, unit_price = Some 50000,
      item = Some \<lparr>item_id = Some 7, bonus_lists = None\<rparr>, quantity = Some 4\<rparr>
     = Inr [([7], [(3, 2), (5, 4)])]
   \<and> parse_auction [([7], [(3, 2)])]
     \<lparr>buyout = Some 0, unit_price = None,
      item = Some \<lparr>item_id = Some 7, bonus_lists = None\<rparr>, quantity = Some 4\<rparr>
     = Inr [([7], [(3, 2)])]"
  using unit_price_rule[of
      "\<lparr>buyout = Some 30000, unit_price = Some 50000,
        item = Some \<lparr>item_id = Some 7, bonus_lists = None\<rparr>, quantity = Some 4\<rparr>"
      "[([7], [(3, 2)])]"]
    unit_price_rule[of
      "\<lparr>buyout = Some 0, unit_price = Some 50000,
        item = Some \<lparr>item_id = Some 7, bonus_lists = None\<rparr>, quantity = Some 4\<rparr>"
      "[([7], [(3, 2)])]"]
    unit_price_rule[of
      "\<lparr>buyout = Some 0, unit_price = None,
        item = Some \<lparr>item_id = Some 7, bonus_lists = None\<rparr>, quantity = Some 4\<rparr>"
      "[([7], [(3, 2)])]"]
  by (simp add: store_listing_def make_dict_key_def defaultdict_get_def add_quantity_def)

section \<open>Accounting of quantities\<close>

text \<open>
  Claim C2. The variants and prices are those of the specification (\<^const>\<open>spec_variant_key\<close>:
  the item id followed by the bonus ids in their order; \<^const>\<open>spec_unit_price\<close>), not
  those the code computes. When the aggregator returns, every variant key occurs once in
  the result; the quantities in the buckets of a variant add up to the quantities of the
  listings of that variant that have a usable price, and its histogram is not empty and
  comes from at least one such listing, so a skipped listing creates no entry; every bucket
  holds exactly the quantities of the listings of its variant and price; and every listing
  with a usable price has exactly one variant and price, whose bucket is in the result.
\<close>

theorem quantity_accounting:
  assumes run: "parse_auctions (PyList xs) = Inr m"
  shows "distinct (map fst m)
   \<and> (\<forall>(k, h) \<in> set m. h \<noteq> [] \<and> (\<exists>a\<in>set xs. counted k a)
         \<and> sum_list (map snd h) = sum_list (map qty (filter (counted k) xs)))
   \<and> (\<forall>(k, h) \<in> set m. \<forall>(p, c) \<in> set h. (\<exists>a\<in>set xs. counted_at k p a)
         \<and> c = sum_list (map qty (filter (counted_at k p) xs)))
   \<and> (\<forall>a \<in> set xs. spec_unit_price a \<noteq> None \<longrightarrow>
         (\<exists>k p h c q. counted_at k p a \<and> quantity a = Some q \<and> (k, h) \<in> set m \<and> (p, c) \<in> set h
            \<and> (\<forall>k' p'. counted_at k' p' a \<longrightarrow> k' = k \<and> p' = p)))"
proof -
  from run have loop: "parse_loop [] xs = Inr m" by simp
  have d: "distinct (map fst m)"
    using parse_loop_distinct_keys[OF loop] by simp
  have dh: "distinct (map fst h)" if "map_of m k = Some h" for k h
    by (rule parse_loop_hist_invariant[OF loop _ _ that, where P = "\<lambda>h. distinct (map fst h)"])
      (auto intro: distinct_add_quantity)
  have ne: "h \<noteq> []" if "map_of m k = Some h" for k h
    by (rule parse_loop_hist_invariant[OF loop _ _ that, where P = "\<lambda>h. h \<noteq> []"])
      (auto simp: add_quantity_nonempty)
  have variant: "h \<noteq> [] \<and> (\<exists>a\<in>set xs. counted k a)
      \<and> sum_list (map snd h) = sum_list (map qty (filter (counted k) xs))"
    if "(k, h) \<in> set m" for k h
  proof -
    from that d have look: "map_of m k = Some h" by simp
    from parse_loop_keys[OF loop, of k] look have "\<exists>a\<in>set xs. counted k a" by auto
    moreover from parse_loop_total[OF loop, of k] look
    have "sum_list (map snd h) = sum_list (map qty (filter (counted k) xs))"
      by (simp add: hist_of_def)
    ultimately show ?thesis using ne[OF look] by simp
  qed
  have price: "(\<exists>a\<in>set xs. counted_at k p a)
      \<and> c = sum_list (map qty (filter (counted_at k p) xs))"
    if "(k, h) \<in> set m" and "(p, c) \<in> set h" for k h p c
  proof -
    from that(1) d have look: "map_of m k = Some h" by simp
    with that(2) dh[OF look] have "bucket m k p = Some c" by (simp add: bucket_def)
    with parse_loop_bucket[OF loop, of k p] show ?thesis
      by (auto simp: bucket_def split: if_splits)
  qed
  have listing: "\<exists>k p h c q. counted_at k p a \<and> quantity a = Some q \<and> (k, h) \<in> set m
      \<and> (p, c) \<in> set h \<and> (\<forall>k' p'. counted_at k' p' a \<longrightarrow> k' = k \<and> p' = p)"
    if "a \<in> set xs" and "spec_unit_price a \<noteq> None" for a
  proof -
    from that(2) obtain bp where bp: "buy_price a = Some bp"
      by (auto simp: spec_unit_price_code)
    from loop parse_loop_ok_iff[of "[]" xs] that(1) bp obtain k q
      where k: "make_dict_key a = Inr k" and q: "quantity a = Some q" by auto
    let ?p = "scale_price bp"
    from bp k have ca: "counted_at k ?p a" by (simp add: counted_at_code)
    with that(1) have "\<exists>a\<in>set xs. counted_at k ?p a" by blast
    with parse_loop_bucket[OF loop, of k ?p] obtain c where "bucket m k ?p = Some c"
      by simp
    then obtain h where "map_of m k = Some h" and "map_of h ?p = Some c"
      by (auto simp: bucket_def split: option.splits)
    then have "(k, h) \<in> set m" and "(?p, c) \<in> set h" by (auto dest: map_of_SomeD)
    moreover from bp k have "\<forall>k' p'. counted_at k' p' a \<longrightarrow> k' = k \<and> p' = ?p"
      by (auto simp: counted_at_code)
    ultimately show ?thesis using ca q by blast
  qed
  show ?thesis
  proof (intro conjI)
    show "distinct (map fst m)" by (rule d)
    show "\<forall>(k, h) \<in> set m. h \<noteq> [] \<and> (\<exists>a\<in>set xs. counted k a)
         \<and> sum_list (map snd h) = sum_list (map qty (filter (counted k) xs))"
    proof (rule ballI)
      fix kh assume "kh \<in> set m"
      then have "(fst kh, snd kh) \<in> set m" by simp
      from variant[OF this]
      show "case kh of (k, h) \<Rightarrow> h \<noteq> [] \<and> (\<exists>a\<in>set xs. counted k a)
         \<and> sum_list (map snd h) = sum_list (map qty (filter (counted k) xs))"
        by (simp add: case_prod_beta)
    qed
    show "\<forall>(k, h) \<in> set m. \<forall>(p, c) \<in> set h. (\<exists>a\<in>set xs. counted_at k p a)
         \<and> c = sum_list (map qty (filter (counted_at k p) xs))"
    proof (rule ballI)
      fix kh assume kh: "kh \<in> set m"
      have "(\<exists>a\<in>set xs. counted_at (fst kh) (fst pc) a)
          \<and> snd pc = sum_list (map qty (filter (counted_at (fst kh) (fst pc)) xs))"
        if "pc \<in> set (snd kh)" for pc
        using price[of "fst kh" "snd kh" "fst pc" "snd pc"] kh that by simp
      then show "case kh of (k, h) \<Rightarrow> \<forall>(p, c) \<in> set h. (\<exists>a\<in>set xs. counted_at k p a)
         \<and> c = sum_list (map qty (filter (counted_at k p) xs))"
        by (simp add: case_prod_beta)
    qed
    show "\<forall>a \<in> set xs. spec_unit_price a \<noteq> None \<longrightarrow>
         (\<exists>k p h c q. counted_at k p a \<and> quantity a = Some q \<and> (k, h) \<in> set m \<and> (p, c) \<in> set h
            \<and> (\<forall>k' p'. counted_at k' p' a \<longrightarrow> k' = k \<and> p' = p))"
      using listing by (intro ballI impI)
  qed
qed

text \<open>
  Two variants of item 100 that differ only in the order of their bonus ids, a second
  listing of the first variant at the same price, and a listing without price and item.
\<close>

theorem quantity_accounting_witness:
  "parse_auctions (PyList
     [\<lparr>buyout = Some 20000, unit_price = None,
        item = Some \<lparr>item_id = Some 100, bonus_lists = Some [1, 2]\<rparr>, quantity = Some 2\<rparr>,
      \<lparr>buyout = None, unit_price = None, item = None, quantity = None\<rparr>,
      \<lparr>buyout = Some 30000, unit_price = None,
        item = Some \<lparr>item_id = Some 100, bonus_lists = Some [2, 1]\<rparr>, quantity = Some 4\<rparr>,
      \<lparr>buyout = None, unit_price = Some 20000,
        item = Some \<lparr>item_id = Some 100, bonus_lists = Some [1, 2]\<rparr>, quantity = Some 3\<rparr>])
     = Inr [([100, 1, 2], [(2, 5)]), ([100, 2, 1], [(3, 4)])]
   \<and> sum_list (map qty (filter (counted [100, 1, 2])
     [\<lparr>buyout = Some 20000, unit_price = None,
        item = Some \<lparr>item_id = Some 100, bonus_lists = Some [1, 2]\<rparr>, quantity = Some 2\<rparr>,
      \<lparr>buyout = None, unit_price = None, item = None, quantity = None\<rparr>,
      \<lparr>buyout = Some 30000, unit_price = None,
        item = Some \<lparr>item_id = Some 100, bonus_lists = Some [2, 1]\<rparr>, quantity = Some 4\<rparr>,
      \<lparr>buyout = None, unit_price = Some 20000,
        item = Some \<lparr>item_id = Some 100, bonus_lists = Some [1, 2]\<rparr>, quantity = Some 3\<rparr>])) = 5
   \<and> sum_list (map qty (filter (counted [100, 2, 1])
     [\<lparr>buyout = Some 20000, unit_price = None,
        item = Some \<lparr>item_id = Some 100, bonus_lists = Some [1, 2]\<rparr>, quantity = Some 2\<rparr>,
      \<lparr>buyout = None, unit_price = None, item = None, quantity = None\<rparr>,
      \<lparr>buyout = Some 30000, unit_price = None,
        item = Some \<lparr>item_id = Some 100, bonus_lists = Some [2, 1]\<rparr>, quantity = Some 4\<rparr>,
      \<lparr>buyout = None, unit_price = Some 20000,
        item = Some \<lparr>item_id = Some 100, bonus_lists = Some [1, 2]\<rparr>, quantity = Some 3\<rparr>])) = 4
   \<and> sum_list (map qty (filter (counted_at [100, 1, 2] 2)
     [\<lparr>buyout = Some 20000, unit_price = None,
        item = Some \<lparr>item_id = Some 100, bonus_lists = Some [1, 2]\<rparr>, quantity = Some 2\<rparr>,
      \<lparr>buyout = None, unit_price = None, item = None, quantity = None\<rparr>,
      \<lparr>buyout = Some 30000, unit_price = None,
        item = Some \<lparr>item_id = Some 100, bonus_lists = Some [2, 1]\<rparr>, quantity = Some 4\<rparr>,
      \<lparr>buyout = None, unit_price = Some 20000,
        item = Some \<lparr>item_id = Some 100, bonus_lists = Some [1, 2]\<rparr>, quantity = Some 3\<rparr>])) = 5"
proof -
  let ?xs = "[\<lparr>buyout = Some 20000, unit_price = None,
        item = Some \<lparr>item_id = Some 100, bonus_lists = Some [1, 2]\<rparr>, quantity = Some 2\<rparr>,
      \<lparr>buyout = None, unit_price = None, item = None, quantity = None\<rparr>,
      \<lparr>buyout = Some 30000, unit_price = None,
        item = Some \<lparr>item_id = Some 100, bonus_lists = Some [2, 1]\<rparr>, quantity = Some 4\<rparr>,
      \<lparr>buyout = None, unit_price = Some 20000,
        item = Some \<lparr>item_id = Some 100, bonus_lists = Some [1, 2]\<rparr>, quantity = Some 3\<rparr>]"
  have run: "parse_auctions (PyList ?xs)
      = Inr [([100, 1, 2], [(2, 5)]), ([100, 2, 1], [(3, 4)])]"
    by (simp add: parse_auction_def store_listing_def buy_price_def scale_price_def
        make_dict_key_def defaultdict_get_def add_quantity_def)
  note acc = quantity_accounting[OF run]
  from acc[THEN conjunct2, THEN conjunct1]
  have total: "sum_list (map qty (filter (counted [100, 1, 2]) ?xs)) = 5
      \<and> sum_list (map qty (filter (counted [100, 2, 1]) ?xs)) = 4"
    by (simp add: counted_def spec_unit_price_def nonzero_price_def spec_variant_key_def
        bonus_ids_def qty_def)
  from acc[THEN conjunct2, THEN conjunct2, THEN conjunct1]
  have price: "sum_list (map qty (filter (counted_at [100, 1, 2] 2) ?xs)) = 5"
    by (simp add: counted_at_def spec_unit_price_def nonzero_price_def spec_variant_key_def
        bonus_ids_def qty_def)
  from run total price show ?thesis by (intro conjI) simp_all
qed

section \<open>Concrete runs\<close>

text \<open>
  Claim C3. The three listings for item 100 (buyout 100000 and quantity 1; unit price 8000
  and quantity 5; buyout 0, unit price 0 and quantity 3) give exactly one variant key
  \<open>(100,)\<close> with the histogram \<open>{10.0: 1, 0.8: 5}\<close>: the third listing leaves no trace.
\<close>

theorem parse_auctions_scenario:
  "parse_auctions (PyList
     [\<lparr>buyout = Some 100000, unit_price = None,
        item = Some \<lparr>item_id = Some 100, bonus_lists = Some []\<rparr>, quantity = Some 1\<rparr>,
      \<lparr>buyout = None, unit_price = Some 8000,
        item = Some \<lparr>item_id = Some 100, bonus_lists = Some []\<rparr>, quantity = Some 5\<rparr>,
      \<lparr>buyout = Some 0, unit_price = Some 0,
        item = Some \<lparr>item_id = Some 100, bonus_lists = Some []\<rparr>, quantity = Some 3\<rparr>])
   = Inr [([100], [(10, 1), (4 / 5, 5)])]"
  by (simp add: parse_auction_def store_listing_def buy_price_def scale_price_def
      make_dict_key_def defaultdict_get_def add_quantity_def)

text \<open>
  Claim C8. On the empty list the aggregator returns the empty mapping, and the loop of
  \<^verbatim>\<open>main\<close> produces the empty output list whatever the estimator is, also for an
  estimator that raises on every call: it is never called.
\<close>

theorem empty_listing_sequence:
  "parse_auctions (PyList []) = Inr []
   \<and> main_marketvalues mv str (PyList []) = Inr []
   \<and> main_marketvalues (\<lambda>h. Inl (EstimatorError ''called'')) str (PyList []) = Inr []"
  by (simp add: main_marketvalues_def)

section \<open>Variant keys\<close>

text \<open>
  Claim C4. Two listings with the same item id get the same variant key exactly when their
  bonus-id lists are equal as lists (an absent list counts as empty). Aggregating the two
  gives two separate entries, each with its own quantity, when the lists differ, and one
  entry holding both when they are equal.
\<close>

theorem variant_keys:
  assumes ia: "item a = Some ia" and ib: "item b = Some ib"
    and ida: "item_id ia = Some i" and idb: "item_id ib = Some i"
  shows "make_dict_key a = Inr (i # bonus_ids ia)
       \<and> make_dict_key b = Inr (i # bonus_ids ib)
       \<and> (make_dict_key a = make_dict_key b \<longleftrightarrow> bonus_ids ia = bonus_ids ib)
       \<and> (\<forall>pa pb qa qb. buy_price a = Some pa \<and> buy_price b = Some pb
              \<and> quantity a = Some qa \<and> quantity b = Some qb \<longrightarrow>
            parse_auctions (PyList [a, b]) =
              (if bonus_ids ia = bonus_ids ib
               then Inr [(i # bonus_ids ia,
                          add_quantity [(scale_price pa, qa)] (scale_price pb) qb)]
               else Inr [(i # bonus_ids ia, [(scale_price pa, qa)]),
                         (i # bonus_ids ib, [(scale_price pb, qb)])]))"
proof -
  from ia ida have ka: "make_dict_key a = Inr (i # bonus_ids ia)"
    by (simp add: make_dict_key_def bonus_ids_def)
  from ib idb have kb: "make_dict_key b = Inr (i # bonus_ids ib)"
    by (simp add: make_dict_key_def bonus_ids_def)
  have run: "parse_auctions (PyList [a, b]) =
      (if bonus_ids ia = bonus_ids ib
       then Inr [(i # bonus_ids ia, add_quantity [(scale_price pa, qa)] (scale_price pb) qb)]
       else Inr [(i # bonus_ids ia, [(scale_price pa, qa)]),
                 (i # bonus_ids ib, [(scale_price pb, qb)])])"
    if "buy_price a = Some pa" "buy_price b = Some pb" "quantity a = Some qa"
      "quantity b = Some qb" for pa pb qa qb
  proof -
    have first: "parse_auction [] a = Inr [(i # bonus_ids ia, [(scale_price pa, qa)])]"
      using parse_auction_add[OF that(1) ka that(3), of "[]"]
      by (simp add: hist_of_def add_quantity_def)
    have second: "parse_auction [(i # bonus_ids ia, [(scale_price pa, qa)])] b =
      (if bonus_ids ia = bonus_ids ib
       then Inr [(i # bonus_ids ia, add_quantity [(scale_price pa, qa)] (scale_price pb) qb)]
       else Inr [(i # bonus_ids ia, [(scale_price pa, qa)]),
                 (i # bonus_ids ib, [(scale_price pb, qb)])])"
      using parse_auction_add[OF that(2) kb that(4),
          of "[(i # bonus_ids ia, [(scale_price pa, qa)])]"]
      by (auto simp: hist_of_def add_quantity_def)
    show ?thesis by (simp add: first second)
  qed
  from ka kb run show ?thesis by auto
qed

text \<open>Bonus lists \<open>[1, 2]\<close> and \<open>[2, 1]\<close> stay apart; \<open>[1, 2]\<close> twice is merged.\<close>

theorem variant_keys_witness:
  "parse_auctions (PyList
     [\<lparr>buyout = Some 20000, unit_price = None,
        item = Some \<lparr>item_id = Some 100, bonus_lists = Some [1, 2]\<rparr>, quantity = Some 1\<rparr>,
      \<lparr>buyout = Some 20000, unit_price = None,
        item = Some \<lparr>item_id = Some 100, bonus_lists = Some [2, 1]\<rparr>, quantity = Some 4\<rparr>])
     = Inr [([100, 1, 2], [(2, 1)]), ([100, 2, 1], [(2, 4)])]
   \<and> parse_auctions (PyList
     [\<lparr>buyout = Some 20000, unit_price = None,
        item = Some \<lparr>item_id = Some 100, bonus_lists = Some [1, 2]\<rparr>, quantity = Some 1\<rparr>,
      \<lparr>buyout = Some 20000, unit_price = None,
        item = Some \<lparr>item_id = Some 100, bonus_lists = Some [1, 2]\<rparr>, quantity = Some 4\<rparr>])
     = Inr [([100, 1, 2], [(2, 5)])]"
  using variant_keys[of
      "\<lparr>buyout = Some 20000, unit_price = None,
        item = Some \<lparr>item_id = Some 100, bonus_lists = Some [1, 2]\<rparr>, quantity = Some 1\<rparr>"
      "\<lparr>item_id = Some 100, bonus_lists = Some [1, 2]\<rparr>"
      "\<lparr>buyout = Some 20000, unit_price = None,
        item = Some \<lparr>item_id = Some 100, bonus_lists = Some [2, 1]\<rparr>, quantity = Some 4\<rparr>"
      "\<lparr>item_id = Some 100, bonus_lists = Some [2, 1]\<rparr>" 100]
    variant_keys[of
      "\<lparr>buyout = Some 20000, unit_price = None,
        item = Some \<lparr>item_id = Some 100, bonus_lists = Some [1, 2]\<rparr>, quantity = Some 1\<rparr>"
      "\<lparr>item_id = Some 100, bonus_lists = Some [1, 2]\<rparr>"
      "\<lparr>buyout = Some 20000, unit_price = None,
        item = Some \<lparr>item_id = Some 100, bonus_lists = Some [1, 2]\<rparr>, quantity = Some 4\<rparr>"
      "\<lparr>item_id = Some 100, bonus_lists = Some [1, 2]\<rparr>" 100]
  by (simp add: buy_price_def scale_price_def bonus_ids_def add_quantity_def)

section \<open>Order of the listings\<close>

text \<open>
  Claim C5. For a permutation of the input the aggregator returns the same mapping: the
  same variant keys, and under each key the same prices with the same quantities (equality
  of dicts, which ignores insertion order). If it raises on the input, it raises on the
  permutation.
\<close>

theorem order_independence:
  assumes perm: "mset ys = mset xs"
  shows "(\<forall>m. parse_auctions (PyList xs) = Inr m \<longrightarrow>
           (\<exists>m'. parse_auctions (PyList ys) = Inr m'
              \<and> (\<forall>k. map_option map_of (map_of m' k) = map_option map_of (map_of m k))))
       \<and> ((\<exists>e. parse_auctions (PyList xs) = Inl e) \<longrightarrow>
           (\<exists>e. parse_auctions (PyList ys) = Inl e))"
proof -
  from perm have sets: "set ys = set xs" by (rule mset_eq_setD)
  have ok: "(\<exists>m. parse_loop [] xs = Inr m) \<longleftrightarrow> (\<exists>m. parse_loop [] ys = Inr m)"
    unfolding parse_loop_ok_iff sets ..
  have same: "map_option map_of (map_of m' k) = map_option map_of (map_of m k)"
    if x: "parse_loop [] xs = Inr m" and y: "parse_loop [] ys = Inr m'" for m m' k
  proof -
    have keys: "map_of m' k = None \<longleftrightarrow> map_of m k = None"
      using parse_loop_keys[OF x, of k] parse_loop_keys[OF y, of k] sets by simp
    have buckets: "bucket m' k p = bucket m k p" for p
      using parse_loop_bucket[OF x, of k p] parse_loop_bucket[OF y, of k p] sets
        sum_filter_mset[OF perm, of qty "counted_at k p"]
      by simp
    show ?thesis
    proof (cases "map_of m k")
      case None
      with keys show ?thesis by simp
    next
      case (Some h)
      with keys obtain h' where h': "map_of m' k = Some h'" by auto
      have "map_of h' p = map_of h p" for p
        using buckets[of p] Some h' by (simp add: bucket_def)
      then have "map_of h' = map_of h" by (rule ext)
      with Some h' show ?thesis by simp
    qed
  qed
  show ?thesis
  proof (intro conjI allI impI)
    fix m assume "parse_auctions (PyList xs) = Inr m"
    then have x: "parse_loop [] xs = Inr m" by simp
    with ok obtain m' where y: "parse_loop [] ys = Inr m'" by blast
    from same[OF x y] y
    show "\<exists>m'. parse_auctions (PyList ys) = Inr m'
        \<and> (\<forall>k. map_option map_of (map_of m' k) = map_option map_of (map_of m k))"
      by auto
  next
    assume "\<exists>e. parse_auctions (PyList xs) = Inl e"
    then have "\<not> (\<exists>m. parse_loop [] xs = Inr m)" by auto
    with ok have "\<not> (\<exists>m. parse_loop [] ys = Inr m)" by simp
    then show "\<exists>e. parse_auctions (PyList ys) = Inl e"
      by (cases "parse_loop [] ys") auto
  qed
qed

text \<open>Two listings of one variant in both orders.\<close>

theorem order_independence_witness:
  "mset [\<lparr>buyout = None, unit_price = Some 30000,
          item = Some \<lparr>item_id = Some 9, bonus_lists = Some [4]\<rparr>, quantity = Some 2\<rparr>,
         \<lparr>buyout = Some 10000, unit_price = None,
          item = Some \<lparr>item_id = Some 9, bonus_lists = Some [4]\<rparr>, quantity = Some 1\<rparr>]
   = mset [\<lparr>buyout = Some 10000, unit_price = None,
          item = Some \<lparr>item_id = Some 9, bonus_lists = Some [4]\<rparr>, quantity = Some 1\<rparr>,
         \<lparr>buyout = None, unit_price = Some 30000,
          item = Some \<lparr>item_id = Some 9, bonus_lists = Some [4]\<rparr>, quantity = Some 2\<rparr>]
   \<and> parse_auctions (PyList
        [\<lparr>buyout = Some 10000, unit_price = None,
          item = Some \<lparr>item_id = Some 9, bonus_lists = Some [4]\<rparr>, quantity = Some 1\<rparr>,
         \<lparr>buyout = None, unit_price = Some 30000,
          item = Some \<lparr>item_id = Some 9, bonus_lists = Some [4]\<rparr>, quantity = Some 2\<rparr>])
       = Inr [([9, 4], [(1, 1), (3, 2)])]
   \<and> (\<exists>m'. parse_auctions (PyList
        [\<lparr>buyout = None, unit_price = Some 30000,
          item = Some \<lparr>item_id = Some 9, bonus_lists = Some [4]\<rparr>, quantity = Some 2\<rparr>,
         \<lparr>buyout = Some 10000, unit_price = None,
          item = Some \<lparr>item_id = Some 9, bonus_lists = Some [4]\<rparr>, quantity = Some 1\<rparr>])
        = Inr m'
       \<and> (\<forall>k. map_option map_of (map_of m' k)
              = map_option map_of (map_of [([9, 4], [(1::rat, 1::int), (3, 2)])] k)))"
proof -
  let ?a = "\<lparr>buyout = Some 10000, unit_price = None,
          item = Some \<lparr>item_id = Some 9, bonus_lists = Some [4]\<rparr>, quantity = Some 1\<rparr>"
  let ?b = "\<lparr>buyout = None, unit_price = Some 30000,
          item = Some \<lparr>item_id = Some 9, bonus_lists = Some [4]\<rparr>, quantity = Some 2\<rparr>"
  have perm: "mset [?b, ?a] = mset [?a, ?b]" by simp
  have run: "parse_auctions (PyList [?a, ?b]) = Inr [([9, 4], [(1, 1), (3, 2)])]"
    by (simp add: parse_auction_def store_listing_def buy_price_def scale_price_def
        make_dict_key_def defaultdict_get_def add_quantity_def)
  from order_independence[OF perm, THEN conjunct1, rule_format, OF run] perm run
  show ?thesis by (intro conjI)
qed

section \<open>Positive quantities and unique prices\<close>

text \<open>
  Claim C6. If every quantity in the input is at least 1, every quantity stored in every
  histogram of the result is at least 1, and the price keys of each histogram are pairwise
  different.
\<close>

theorem positive_quantities:
  assumes run: "parse_auctions (PyList xs) = Inr m"
    and pos: "\<forall>a\<in>set xs. \<forall>q. quantity a = Some q \<longrightarrow> 1 \<le> q"
  shows "\<forall>(k, h) \<in> set m. distinct (map fst h) \<and> (\<forall>(p, c) \<in> set h. 1 \<le> c)"
proof (rule ballI)
  fix kh assume kh: "kh \<in> set m"
  from run have loop: "parse_loop [] xs = Inr m" by simp
  have d: "distinct (map fst m)"
    using parse_loop_distinct_keys[OF loop] by simp
  with kh have look: "map_of m (fst kh) = Some (snd kh)" by simp
  have "distinct (map fst (snd kh))"
    by (rule parse_loop_hist_invariant[OF loop _ _ look, where P = "\<lambda>h. distinct (map fst h)"])
      (auto intro: distinct_add_quantity)
  moreover have "\<forall>(p, c) \<in> set (snd kh). 1 \<le> c"
  proof (rule parse_loop_hist_invariant[OF loop _ _ look, where P = "\<lambda>h. \<forall>(p, c) \<in> set h. 1 \<le> c"])
    fix k :: dict_key and h :: histogram
    assume "map_of [] k = Some h"
    then show "\<forall>(p, c) \<in> set h. 1 \<le> c" by simp
  next
    fix h :: histogram and p a q
    assume h: "h = [] \<or> (\<forall>(p, c) \<in> set h. 1 \<le> c)" and a: "a \<in> set xs"
      and q: "quantity a = Some q"
    from h have "\<forall>(p, c) \<in> set h. 1 \<le> c" by auto
    moreover from pos a q have "1 \<le> q" by blast
    ultimately show "\<forall>(p', c) \<in> set (add_quantity h p q). 1 \<le> c"
      by (rule add_quantity_positive)
  qed
  ultimately show "case kh of (k, h) \<Rightarrow> distinct (map fst h) \<and> (\<forall>(p, c) \<in> set h. 1 \<le> c)"
    by (simp add: case_prod_beta)
qed

text \<open>Two listings that fall into the same bucket.\<close>

theorem positive_quantities_witness:
  "parse_auctions (PyList
     [\<lparr>buyout = Some 10000, unit_price = None,
        item = Some \<lparr>item_id = Some 9, bonus_lists = Some [4]\<rparr>, quantity = Some 1\<rparr>,
      \<lparr>buyout = Some 10000, unit_price = Some 30000,
        item = Some \<lparr>item_id = Some 9, bonus_lists = Some [4]\<rparr>, quantity = Some 2\<rparr>])
     = Inr [([9, 4], [(1, 3)])]
   \<and> distinct (map fst [(1::rat, 3::int)])
   \<and> (1::int) \<le> snd (1::rat, 3::int)"
proof -
  let ?xs = "[\<lparr>buyout = Some 10000, unit_price = None,
        item = Some \<lparr>item_id = Some 9, bonus_lists = Some [4]\<rparr>, quantity = Some 1\<rparr>,
      \<lparr>buyout = Some 10000, unit_price = Some 30000,
        item = Some \<lparr>item_id = Some 9, bonus_lists = Some [4]\<rparr>, quantity = Some 2\<rparr>]"
  have run: "parse_auctions (PyList ?xs) = Inr [([9, 4], [(1, 3)])]"
    by (simp add: parse_auction_def store_listing_def buy_price_def scale_price_def
        make_dict_key_def defaultdict_get_def add_quantity_def)
  have pos: "\<forall>a\<in>set ?xs. \<forall>q. quantity a = Some q \<longrightarrow> 1 \<le> q" by simp
  from positive_quantities[OF run pos]
  have "distinct (map fst [(1::rat, 3::int)]) \<and> (1::int) \<le> snd (1::rat, 3::int)" by simp
  with run show ?thesis by (intro conjI) simp_all
qed

section \<open>Failures\<close>

text \<open>
  Claim C7, as amended. If the input list contains a listing that has a usable price (a
  buyout that is not zero or a unit price that is not zero) and lacks its item id, the call
  signals an error and returns no mapping. A listing without usable price is skipped before
  its item id is read: with it the call has the same outcome as without it, whether or not
  it has an item id. An argument that is not a list raises \<^verbatim>\<open>TypeError\<close>.
\<close>

theorem missing_item_id_fails:
  "((\<exists>a\<in>set xs.
        ((\<exists>b. buyout a = Some b \<and> b \<noteq> 0) \<or> (\<exists>u. unit_price a = Some u \<and> u \<noteq> 0))
        \<and> (item a = None \<or> (\<exists>it. item a = Some it \<and> item_id it = None)))
      \<longrightarrow> (\<exists>e. parse_auctions (PyList xs) = Inl e))
   \<and> ((buyout c = None \<or> buyout c = Some 0) \<and> (unit_price c = None \<or> unit_price c = Some 0)
      \<longrightarrow> parse_auctions (PyList (pre @ c # post)) = parse_auctions (PyList (pre @ post)))
   \<and> ((\<forall>ys. arg \<noteq> PyList ys) \<longrightarrow> parse_auctions arg = Inl TypeError)"
proof (intro conjI impI)
  assume "\<exists>a\<in>set xs.
        ((\<exists>b. buyout a = Some b \<and> b \<noteq> 0) \<or> (\<exists>u. unit_price a = Some u \<and> u \<noteq> 0))
        \<and> (item a = None \<or> (\<exists>it. item a = Some it \<and> item_id it = None))"
  then obtain a where a: "a \<in> set xs"
    and price: "(\<exists>b. buyout a = Some b \<and> b \<noteq> 0) \<or> (\<exists>u. unit_price a = Some u \<and> u \<noteq> 0)"
    and noid: "item a = None \<or> (\<exists>it. item a = Some it \<and> item_id it = None)"
    by blast
  from price have "buy_price a \<noteq> None" by (auto simp: buy_price_None_iff)
  moreover from noid have "\<not> (\<exists>k. make_dict_key a = Inr k)"
    by (auto simp: make_dict_key_def)
  ultimately have "\<not> (\<exists>m. parse_loop [] xs = Inr m)"
    unfolding parse_loop_ok_iff using a by auto
  then obtain e where "parse_loop [] xs = Inl e"
    by (cases "parse_loop [] xs") auto
  then show "\<exists>e. parse_auctions (PyList xs) = Inl e" by auto
next
  assume "(buyout c = None \<or> buyout c = Some 0) \<and> (unit_price c = None \<or> unit_price c = Some 0)"
  then have "buy_price c = None" by (simp add: buy_price_None_iff)
  then have "parse_auction pa c = Inr pa" for pa
    by (rule parse_auction_skip)
  then show "parse_auctions (PyList (pre @ c # post)) = parse_auctions (PyList (pre @ post))"
    by (simp add: parse_loop_append split: sum.splits)
next
  assume "\<forall>ys. arg \<noteq> PyList ys"
  then show "parse_auctions arg = Inl TypeError" by (cases arg) simp_all
qed

text \<open>
  A priced listing without item id after a good one; a listing without price and without
  item id between two good ones; a tuple as argument.
\<close>

theorem missing_item_id_fails_witness:
  "parse_auctions (PyList
     [\<lparr>buyout = Some 100000, unit_price = None,
        item = Some \<lparr>item_id = Some 100, bonus_lists = None\<rparr>, quantity = Some 1\<rparr>,
      \<lparr>buyout = None, unit_price = Some 7,
        item = Some \<lparr>item_id = None, bonus_lists = None\<rparr>, quantity = Some 3\<rparr>])
     = Inl (KeyError ''id'')
   \<and> parse_auctions (PyList
     [\<lparr>buyout = Some 100000, unit_price = None,
        item = Some \<lparr>item_id = Some 100, bonus_lists = None\<rparr>, quantity = Some 1\<rparr>,
      \<lparr>buyout = Some 0, unit_price = None,
        item = Some \<lparr>item_id = None, bonus_lists = Some [8]\<rparr>, quantity = Some 3\<rparr>,
      \<lparr>buyout = Some 100000, unit_price = None,
        item = Some \<lparr>item_id = Some 100, bonus_lists = None\<rparr>, quantity = Some 2\<rparr>])
     = Inr [([100], [(10, 3)])]
   \<and> parse_auctions (PyTuple []) = Inl TypeError"
  using missing_item_id_fails[where
     xs = "[\<lparr>buyout = Some 100000, unit_price = None,
        item = Some \<lparr>item_id = Some 100, bonus_lists = None\<rparr>, quantity = Some 1\<rparr>,
      \<lparr>buyout = None, unit_price = Some 7,
        item = Some \<lparr>item_id = None, bonus_lists = None\<rparr>, quantity = Some 3\<rparr>]"
     and c = "\<lparr>buyout = Some 0, unit_price = None,
        item = Some \<lparr>item_id = None, bonus_lists = Some [8]\<rparr>, quantity = Some 3\<rparr>"
     and pre = "[\<lparr>buyout = Some 100000, unit_price = None,
        item = Some \<lparr>item_id = Some 100, bonus_lists = None\<rparr>, quantity = Some 1\<rparr>]"
     and post = "[\<lparr>buyout = Some 100000, unit_price = None,
        item = Some \<lparr>item_id = Some 100, bonus_lists = None\<rparr>, quantity = Some 2\<rparr>]"
     and arg = "PyTuple []"]
  by (simp add: parse_auction_def store_listing_def buy_price_def scale_price_def
      make_dict_key_def defaultdict_get_def add_quantity_def)

text \<open>
  Claim C7 as stated fails: a listing without item id that has no usable price is skipped,
  and the call returns the mapping built from the other listings.
\<close>

theorem missing_item_id_counterexample:
  "parse_auctions (PyList
     [\<lparr>buyout = Some 100000, unit_price = None,
        item = Some \<lparr>item_id = Some 100, bonus_lists = None\<rparr>, quantity = Some 1\<rparr>,
      \<lparr>buyout = None, unit_price = None,
        item = Some \<lparr>item_id = None, bonus_lists = None\<rparr>, quantity = Some 3\<rparr>])
   = Inr [([100], [(10, 1)])]"
  by (simp add: parse_auction_def store_listing_def buy_price_def scale_price_def
      make_dict_key_def defaultdict_get_def add_quantity_def)

text \<open>
  Claim C10. A listing without usable price (buyout absent or zero, and unit price absent or
  zero) is skipped whatever its \<^verbatim>\<open>'item'\<close> and \<^verbatim>\<open>'quantity'\<close> keys hold, also absent
  ones: the call gives the same outcome as without that listing.
\<close>

theorem skipped_listing_not_read:
  assumes "buyout a = None \<or> buyout a = Some 0"
    and "unit_price a = None \<or> unit_price a = Some 0"
  shows "parse_auctions (PyList (xs @ a\<lparr>item := it, quantity := q\<rparr> # ys))
         = parse_auctions (PyList (xs @ ys))"
proof -
  from assms have "buy_price (a\<lparr>item := it, quantity := q\<rparr>) = None"
    by (simp add: buy_price_None_iff)
  then have "parse_auction pa (a\<lparr>item := it, quantity := q\<rparr>) = Inr pa" for pa
    by (rule parse_auction_skip)
  then show ?thesis
    by (simp add: parse_loop_append split: sum.splits)
qed

text \<open>A zero-priced listing without item and without quantity after a good one.\<close>

theorem skipped_listing_not_read_witness:
  "(buyout \<lparr>buyout = Some 0, unit_price = Some 0,
        item = Some \<lparr>item_id = Some 1, bonus_lists = None\<rparr>, quantity = Some 1\<rparr> = None
    \<or> buyout \<lparr>buyout = Some 0, unit_price = Some 0,
        item = Some \<lparr>item_id = Some 1, bonus_lists = None\<rparr>, quantity = Some 1\<rparr> = Some 0)
   \<and> parse_auctions (PyList
       [\<lparr>buyout = Some 50000, unit_price = None,
          item = Some \<lparr>item_id = Some 3, bonus_lists = None\<rparr>, quantity = Some 2\<rparr>,
        \<lparr>buyout = Some 0, unit_price = Some 0, item = None, quantity = None\<rparr>])
     = Inr [([3], [(5, 2)])]"
  using skipped_listing_not_read[of
      "\<lparr>buyout = Some 0, unit_price = Some 0,
        item = Some \<lparr>item_id = Some 1, bonus_lists = None\<rparr>, quantity = Some 1\<rparr>"
      "[\<lparr>buyout = Some 50000, unit_price = None,
          item = Some \<lparr>item_id = Some 3, bonus_lists = None\<rparr>, quantity = Some 2\<rparr>]"
      None None "[]"]
  by (simp add: parse_auction_def store_listing_def buy_price_def scale_price_def
        make_dict_key_def defaultdict_get_def add_quantity_def)

end
